theory Spec2Isabelle
  imports Main "HOL-Library.Word"
begin

section \<open>The contract ClueBoardGameFHE: data model\<close>

text \<open>
  A shallow embedding of the Solidity contract \<open>ClueBoardGameFHE\<close>: its storage as a
  record, its modifiers, internal helpers and external functions as functions on that
  record, a revert as a value of the error type. A function that reverts returns the error
  and no state, so a failed call changes nothing and emits nothing.

  The Solidity value types of the contract. \<open>euint32\<close> and \<open>ebool\<close> are handles of the
  FHE library (user-defined value types over \<open>bytes32\<close>); \<open>FHE.toBytes32\<close> unwraps a
  handle and is the identity on this representation. The zero handle is what a storage
  slot that was never written holds.
\<close>

type_synonym address = "160 word"
type_synonym uint256 = "256 word"
type_synonym bytes32 = "256 word"
type_synonym bytes = "8 word list"

text \<open>
  The custom errors of the contract, in the order of their declaration, followed by the
  three ways a call can revert that the contract does not name: the arithmetic panic of
  checked \<open>uint256\<close> addition, a revert propagated from \<open>FHE.checkSignatures\<close>, and a
  revert of \<open>abi.decode\<close> on malformed cleartexts.
\<close>

datatype error =
    NotOwner
  | NotProvider
  | Paused
  | InvalidState
  | RateLimited
  | BatchClosed
  | BatchFull
  | InvalidBatch
  | StaleVersion
  | AlreadyProcessed
  | Panic
  | SignatureRejected
  | DecodeFailed

text \<open>
  The events. \<open>Paused\<close> and \<open>BatchClosed\<close> name both an error and an event in the
  source; the events carry the suffix here.
\<close>

datatype event =
    ProviderAdded address
  | ProviderRemoved address
  | PausedEvent
  | Unpaused
  | CooldownUpdated uint256
  | BatchOpened uint256
  | BatchClosedEvent uint256
  | Submission address uint256 bytes32 bytes32 bytes32
  | DecryptionRequested uint256 uint256 bytes32
  | DecryptionComplete uint256 uint256 "uint256 \<times> uint256 \<times> uint256"
  | Accusation address uint256 bool

record Batch =
  isOpen :: bool
  submissionCount :: uint256
  encryptedWeapon :: bytes32
  encryptedRoom :: bytes32
  encryptedSuspect :: bytes32
  submitted :: "address \<Rightarrow> bool"

text \<open>
  The struct \<open>DecryptionContext\<close>; its fields carry the prefix \<open>ctx_\<close> because the
  contract has a state variable \<open>modelVersion\<close> too.
\<close>

record DecryptionContext =
  ctx_batchId :: uint256
  ctx_modelVersion :: uint256
  ctx_stateHash :: bytes32
  ctx_processed :: bool

text \<open>
  The storage of the contract. A Solidity mapping is total: a key that was never written
  reads as the zero value, so mappings are functions. \<open>decryptionContexts\<close> alone is kept
  as a partial map, read through \<open>contextOf\<close> with the zero struct as default, so that
  "no context was stored under this request id" can be said.
\<close>

record state =
  owner :: address
  paused :: bool
  cooldownSeconds :: uint256
  currentBatchId :: uint256
  modelVersion :: uint256
  providers :: "address \<Rightarrow> bool"
  lastSubmissionAt :: "address \<Rightarrow> uint256"
  lastRequestAt :: "address \<Rightarrow> uint256"
  batches :: "uint256 \<Rightarrow> Batch"
  decryptionContexts :: "uint256 \<rightharpoonup> DecryptionContext"
  hasSubmitted :: "uint256 \<Rightarrow> address \<Rightarrow> bool"
  hasRequested :: "uint256 \<Rightarrow> address \<Rightarrow> bool"

definition MAX_BATCH_SIZE :: uint256 where
  "MAX_BATCH_SIZE = 10"

definition zeroBatch :: Batch where
  "zeroBatch = \<lparr>isOpen = False, submissionCount = 0, encryptedWeapon = 0,
     encryptedRoom = 0, encryptedSuspect = 0, submitted = (\<lambda>_. False)\<rparr>"

definition zeroContext :: DecryptionContext where
  "zeroContext = \<lparr>ctx_batchId = 0, ctx_modelVersion = 0, ctx_stateHash = 0,
     ctx_processed = False\<rparr>"

definition contextOf :: "state \<Rightarrow> uint256 \<Rightarrow> DecryptionContext" where
  "contextOf s requestId =
     (case decryptionContexts s requestId of None \<Rightarrow> zeroContext | Some c \<Rightarrow> c)"

text \<open>
  The state after deployment: the field initialisers of the contract and its constructor,
  which records the deployer as owner.
\<close>

definition constructor :: "address \<Rightarrow> state" where
  "constructor sender =
     \<lparr>owner = sender, paused = False, cooldownSeconds = 30, currentBatchId = 0,
      modelVersion = 1, providers = (\<lambda>_. False), lastSubmissionAt = (\<lambda>_. 0),
      lastRequestAt = (\<lambda>_. 0), batches = (\<lambda>_. zeroBatch),
      decryptionContexts = Map.empty, hasSubmitted = (\<lambda>_ _. False),
      hasRequested = (\<lambda>_ _. False)\<rparr>"

subsection \<open>The external capability\<close>

text \<open>
  The library \<open>FHE\<close>, the hash and the address of the contract are not part of the
  repository; they are parameters of the model. \<open>fhe_add\<close>, \<open>fhe_eq\<close> and \<open>fhe_and\<close>
  give the handle of the result of \<open>FHE.add\<close>, \<open>FHE.eq\<close> and \<open>FHE.and\<close>;
  \<open>checkSignatures\<close> tells whether \<open>FHE.checkSignatures\<close> returns (it reverts
  otherwise); \<open>keccak_encode cts a\<close> is \<open>keccak256(abi.encode(cts, a))\<close>. The request id
  that \<open>FHE.requestDecryption\<close> returns is an argument of the two functions that call it.
\<close>

record FHE =
  isInitialized :: "bytes32 \<Rightarrow> bool"
  asEuint32 :: "32 word \<Rightarrow> bytes32"
  asEbool :: "bool \<Rightarrow> bytes32"
  fhe_add :: "bytes32 \<Rightarrow> bytes32 \<Rightarrow> bytes32"
  fhe_eq :: "bytes32 \<Rightarrow> bytes32 \<Rightarrow> bytes32"
  fhe_and :: "bytes32 \<Rightarrow> bytes32 \<Rightarrow> bytes32"
  checkSignatures :: "uint256 \<Rightarrow> bytes \<Rightarrow> bytes \<Rightarrow> bool"
  keccak_encode :: "bytes32 list \<Rightarrow> address \<Rightarrow> bytes32"
  contract_address :: address

subsection \<open>Solidity built-ins\<close>

text \<open>Checked addition of Solidity 0.8: the call panics when the sum leaves \<open>uint256\<close>.\<close>

definition overflows :: "uint256 \<Rightarrow> uint256 \<Rightarrow> bool" where
  "overflows a b = (2 ^ 256 \<le> unat a + unat b)"

text \<open>
  \<open>abi.decode\<close> of the two shapes the callbacks read. The cleartexts must hold the 32-byte
  big-endian words of the value (more bytes are accepted); a \<open>bool\<close> word must be 0 or 1.
\<close>

definition abi_word :: "bytes \<Rightarrow> nat \<Rightarrow> uint256" where
  "abi_word bs i = word_rcat (take 32 (drop (32 * i) bs))"

definition abi_decode_bool :: "bytes \<Rightarrow> bool option" where
  "abi_decode_bool bs =
     (if length bs < 32 then None
      else if abi_word bs 0 = 0 then Some False
      else if abi_word bs 0 = 1 then Some True
      else None)"

definition abi_decode_uint256_3 :: "bytes \<Rightarrow> (uint256 \<times> uint256 \<times> uint256) option" where
  "abi_decode_uint256_3 bs =
     (if length bs < 96 then None
      else Some (abi_word bs 0, abi_word bs 1, abi_word bs 2))"

section \<open>Modifiers\<close>

text \<open>
  A modifier either reverts with an error or lets the body run: \<open>Some e\<close> is the revert.
  \<open>guard\<close> chains a modifier with what follows it.
\<close>

fun guard :: "error option \<Rightarrow> (error + 'a) \<Rightarrow> error + 'a" where
  "guard (Some e) body = Inl e"
| "guard None body = body"

definition onlyOwner :: "address \<Rightarrow> state \<Rightarrow> error option" where
  "onlyOwner sender s = (if sender \<noteq> owner s then Some NotOwner else None)"

definition onlyProvider :: "address \<Rightarrow> state \<Rightarrow> error option" where
  "onlyProvider sender s = (if \<not> providers s sender then Some NotProvider else None)"

definition whenNotPaused :: "state \<Rightarrow> error option" where
  "whenNotPaused s = (if paused s then Some Paused else None)"

text \<open>
  \<open>checkCooldown\<close> compares \<open>block.timestamp\<close> with \<open>lastAction[caller] + cooldownSeconds\<close>;
  the sum is checked, so it panics on overflow. The modifier writes nothing.
\<close>

definition checkCooldown ::
  "uint256 \<Rightarrow> address \<Rightarrow> (address \<Rightarrow> uint256) \<Rightarrow> state \<Rightarrow> error option" where
  "checkCooldown timestamp caller lastAction s =
     (if overflows (lastAction caller) (cooldownSeconds s) then Some Panic
      else if timestamp < lastAction caller + cooldownSeconds s then Some RateLimited
      else None)"

section \<open>Internal helpers\<close>

definition hashCiphertexts :: "FHE \<Rightarrow> bytes32 list \<Rightarrow> bytes32" where
  "hashCiphertexts fhe cts = keccak_encode fhe cts (contract_address fhe)"

text \<open>
  \<open>_initIfNeeded\<close> is a view function: it returns the handle to use and stores nothing.
\<close>

definition initIfNeeded :: "FHE \<Rightarrow> bytes32 \<Rightarrow> bytes32" where
  "initIfNeeded fhe x = (if isInitialized fhe x then x else asEuint32 fhe 0)"

definition requireInitialized :: "FHE \<Rightarrow> bytes32 \<Rightarrow> error option" where
  "requireInitialized fhe x = (if \<not> isInitialized fhe x then Some InvalidState else None)"

definition rebuildIsCorrect :: "FHE \<Rightarrow> state \<Rightarrow> uint256 \<Rightarrow> error + bytes32" where
  "rebuildIsCorrect fhe s batchId =
     guard (requireInitialized fhe (encryptedWeapon (batches s batchId)))
    (guard (requireInitialized fhe (encryptedRoom (batches s batchId)))
    (guard (requireInitialized fhe (encryptedSuspect (batches s batchId)))
       (Inr (asEbool fhe False))))"

definition rebuildBatchSolution ::
  "FHE \<Rightarrow> state \<Rightarrow> uint256 \<Rightarrow> error + (bytes32 \<times> bytes32 \<times> bytes32)" where
  "rebuildBatchSolution fhe s batchId =
     guard (requireInitialized fhe (encryptedWeapon (batches s batchId)))
    (guard (requireInitialized fhe (encryptedRoom (batches s batchId)))
    (guard (requireInitialized fhe (encryptedSuspect (batches s batchId)))
       (Inr (encryptedWeapon (batches s batchId),
             encryptedRoom (batches s batchId),
             encryptedSuspect (batches s batchId)))))"

section \<open>Admin functions and batch management\<close>

text \<open>
  Every external function takes the state and returns either the error it reverts with
  or the new state together with the one event it emits. \<open>sender\<close> is \<open>msg.sender\<close> and
  \<open>timestamp\<close> is \<open>block.timestamp\<close>.
\<close>

definition addProvider :: "address \<Rightarrow> address \<Rightarrow> state \<Rightarrow> error + (state \<times> event)" where
  "addProvider sender provider s =
     guard (onlyOwner sender s)
       (Inr (s\<lparr>providers := (providers s)(provider := True)\<rparr>, ProviderAdded provider))"

definition removeProvider :: "address \<Rightarrow> address \<Rightarrow> state \<Rightarrow> error + (state \<times> event)" where
  "removeProvider sender provider s =
     guard (onlyOwner sender s)
       (Inr (s\<lparr>providers := (providers s)(provider := False)\<rparr>, ProviderRemoved provider))"

definition pause :: "address \<Rightarrow> state \<Rightarrow> error + (state \<times> event)" where
  "pause sender s = guard (onlyOwner sender s) (Inr (s\<lparr>paused := True\<rparr>, PausedEvent))"

definition unpause :: "address \<Rightarrow> state \<Rightarrow> error + (state \<times> event)" where
  "unpause sender s = guard (onlyOwner sender s) (Inr (s\<lparr>paused := False\<rparr>, Unpaused))"

definition setCooldown :: "address \<Rightarrow> uint256 \<Rightarrow> state \<Rightarrow> error + (state \<times> event)" where
  "setCooldown sender newCooldown s =
     guard (onlyOwner sender s)
       (Inr (s\<lparr>cooldownSeconds := newCooldown\<rparr>, CooldownUpdated newCooldown))"

definition openBatch :: "address \<Rightarrow> state \<Rightarrow> error + (state \<times> event)" where
  "openBatch sender s =
     guard (onlyOwner sender s)
       (if overflows (currentBatchId s) 1 then Inl Panic
        else
          let newId = currentBatchId s + 1 in
          Inr (s\<lparr>currentBatchId := newId,
                 batches := (batches s)(newId := (batches s newId)\<lparr>isOpen := True\<rparr>)\<rparr>,
               BatchOpened newId))"

definition closeBatch :: "address \<Rightarrow> uint256 \<Rightarrow> state \<Rightarrow> error + (state \<times> event)" where
  "closeBatch sender batchId s =
     guard (onlyOwner sender s)
       (if \<not> isOpen (batches s batchId) then Inl BatchClosed
        else
          Inr (s\<lparr>batches := (batches s)(batchId := (batches s batchId)\<lparr>isOpen := False\<rparr>)\<rparr>,
               BatchClosedEvent batchId))"

section \<open>Player actions\<close>

text \<open>
  \<open>submitEncryptedGuess\<close>. The three calls of \<open>_initIfNeeded\<close> are made as in the source:
  their results are not assigned, so the handles passed to \<open>FHE.add\<close> are the stored ones.
  \<open>submissionCount++\<close> cannot overflow behind the \<open>BatchFull\<close> check.
\<close>

definition submitEncryptedGuess ::
  "FHE \<Rightarrow> address \<Rightarrow> uint256 \<Rightarrow> uint256 \<Rightarrow> bytes32 \<Rightarrow> bytes32 \<Rightarrow> bytes32 \<Rightarrow> state
     \<Rightarrow> error + (state \<times> event)" where
  "submitEncryptedGuess fhe sender timestamp batchId weapon room suspect s =
     guard (whenNotPaused s)
    (guard (checkCooldown timestamp sender (lastSubmissionAt s) s)
      (if \<not> isOpen (batches s batchId) then Inl BatchClosed
       else if MAX_BATCH_SIZE \<le> submissionCount (batches s batchId) then Inl BatchFull
       else if hasSubmitted s batchId sender then Inl InvalidState
       else
         let _ = initIfNeeded fhe (encryptedWeapon (batches s batchId));
             _ = initIfNeeded fhe (encryptedRoom (batches s batchId));
             _ = initIfNeeded fhe (encryptedSuspect (batches s batchId));
             b = batches s batchId;
             b1 = b\<lparr>encryptedWeapon := fhe_add fhe (encryptedWeapon b) weapon\<rparr>;
             b2 = b1\<lparr>encryptedRoom := fhe_add fhe (encryptedRoom b1) room\<rparr>;
             b3 = b2\<lparr>encryptedSuspect := fhe_add fhe (encryptedSuspect b2) suspect\<rparr>;
             b4 = b3\<lparr>submissionCount := submissionCount b3 + 1\<rparr>
         in
           Inr (s\<lparr>batches := (batches s)(batchId := b4),
                  hasSubmitted :=
                    (hasSubmitted s)(batchId := (hasSubmitted s batchId)(sender := True)),
                  lastSubmissionAt := (lastSubmissionAt s)(sender := timestamp)\<rparr>,
                Submission sender batchId weapon room suspect)))"

text \<open>
  \<open>makeAccusation\<close>; \<open>requestId\<close> is what \<open>FHE.requestDecryption\<close> returns.
\<close>

definition makeAccusation ::
  "FHE \<Rightarrow> address \<Rightarrow> uint256 \<Rightarrow> uint256 \<Rightarrow> bytes32 \<Rightarrow> bytes32 \<Rightarrow> bytes32 \<Rightarrow> uint256
     \<Rightarrow> state \<Rightarrow> error + (state \<times> event)" where
  "makeAccusation fhe sender timestamp batchId weapon room suspect requestId s =
     guard (whenNotPaused s)
    (guard (checkCooldown timestamp sender (lastSubmissionAt s) s)
      (if \<not> isOpen (batches s batchId) then Inl BatchClosed
       else if hasSubmitted s batchId sender then Inl InvalidState
       else
         let _ = initIfNeeded fhe (encryptedWeapon (batches s batchId));
             _ = initIfNeeded fhe (encryptedRoom (batches s batchId));
             _ = initIfNeeded fhe (encryptedSuspect (batches s batchId));
             weaponMatch = fhe_eq fhe (encryptedWeapon (batches s batchId)) weapon;
             roomMatch = fhe_eq fhe (encryptedRoom (batches s batchId)) room;
             suspectMatch = fhe_eq fhe (encryptedSuspect (batches s batchId)) suspect;
             isCorrect = fhe_and fhe (fhe_and fhe weaponMatch roomMatch) suspectMatch;
             cts = [isCorrect];
             stateHash = hashCiphertexts fhe cts
         in
           Inr (s\<lparr>decryptionContexts := (decryptionContexts s)(requestId \<mapsto>
                    \<lparr>ctx_batchId = batchId, ctx_modelVersion = modelVersion s,
                     ctx_stateHash = stateHash, ctx_processed = False\<rparr>),
                  hasSubmitted :=
                    (hasSubmitted s)(batchId := (hasSubmitted s batchId)(sender := True)),
                  lastSubmissionAt := (lastSubmissionAt s)(sender := timestamp)\<rparr>,
                DecryptionRequested requestId batchId stateHash)))"

definition requestBatchSolution ::
  "FHE \<Rightarrow> address \<Rightarrow> uint256 \<Rightarrow> uint256 \<Rightarrow> uint256 \<Rightarrow> state \<Rightarrow> error + (state \<times> event)" where
  "requestBatchSolution fhe sender timestamp batchId requestId s =
     guard (whenNotPaused s)
    (guard (checkCooldown timestamp sender (lastRequestAt s) s)
      (if submissionCount (batches s batchId) = 0 then Inl InvalidBatch
       else if hasRequested s batchId sender then Inl InvalidState
       else
         let cts = [encryptedWeapon (batches s batchId),
                    encryptedRoom (batches s batchId),
                    encryptedSuspect (batches s batchId)];
             stateHash = hashCiphertexts fhe cts
         in
           Inr (s\<lparr>decryptionContexts := (decryptionContexts s)(requestId \<mapsto>
                    \<lparr>ctx_batchId = batchId, ctx_modelVersion = modelVersion s,
                     ctx_stateHash = stateHash, ctx_processed = False\<rparr>),
                  hasRequested :=
                    (hasRequested s)(batchId := (hasRequested s batchId)(sender := True)),
                  lastRequestAt := (lastRequestAt s)(sender := timestamp)\<rparr>,
                DecryptionRequested requestId batchId stateHash)))"

section \<open>Callbacks\<close>

text \<open>
  The callbacks are public and carry no modifier. The context is read from storage into
  memory first; a request id that was never stored reads as the zero struct.
\<close>

definition handleAccusationCallback ::
  "FHE \<Rightarrow> address \<Rightarrow> uint256 \<Rightarrow> bytes \<Rightarrow> bytes \<Rightarrow> state \<Rightarrow> error + (state \<times> event)" where
  "handleAccusationCallback fhe sender requestId cleartexts sigs s =
     (let context = contextOf s requestId in
      if ctx_processed context then Inl AlreadyProcessed
      else if ctx_modelVersion context \<noteq> modelVersion s then Inl StaleVersion
      else
        case rebuildIsCorrect fhe s (ctx_batchId context) of
          Inl e \<Rightarrow> Inl e
        | Inr isCorrect \<Rightarrow>
            let cts = [isCorrect];
                currHash = hashCiphertexts fhe cts
            in
              if currHash \<noteq> ctx_stateHash context then Inl InvalidState
              else if \<not> checkSignatures fhe requestId cleartexts sigs
                then Inl SignatureRejected
              else
                case abi_decode_bool cleartexts of
                  None \<Rightarrow> Inl DecodeFailed
                | Some result \<Rightarrow>
                    Inr (s\<lparr>decryptionContexts := (decryptionContexts s)(requestId \<mapsto>
                             (contextOf s requestId)\<lparr>ctx_processed := True\<rparr>)\<rparr>,
                         Accusation sender (ctx_batchId context) result))"

definition handleBatchSolutionCallback ::
  "FHE \<Rightarrow> uint256 \<Rightarrow> bytes \<Rightarrow> bytes \<Rightarrow> state \<Rightarrow> error + (state \<times> event)" where
  "handleBatchSolutionCallback fhe requestId cleartexts sigs s =
     (let context = contextOf s requestId in
      if ctx_processed context then Inl AlreadyProcessed
      else if ctx_modelVersion context \<noteq> modelVersion s then Inl StaleVersion
      else
        case rebuildBatchSolution fhe s (ctx_batchId context) of
          Inl e \<Rightarrow> Inl e
        | Inr (weapon, room, suspect) \<Rightarrow>
            let cts = [weapon, room, suspect];
                currHash = hashCiphertexts fhe cts
            in
              if currHash \<noteq> ctx_stateHash context then Inl InvalidState
              else if \<not> checkSignatures fhe requestId cleartexts sigs
                then Inl SignatureRejected
              else
                case abi_decode_uint256_3 cleartexts of
                  None \<Rightarrow> Inl DecodeFailed
                | Some solution \<Rightarrow>
                    Inr (s\<lparr>decryptionContexts := (decryptionContexts s)(requestId \<mapsto>
                             (contextOf s requestId)\<lparr>ctx_processed := True\<rparr>)\<rparr>,
                         DecryptionComplete requestId (ctx_batchId context) solution))"

section \<open>Transactions\<close>

text \<open>
  The external and public functions of the contract as one datatype of calls, and the
  effect of a transaction: \<open>exec\<close> dispatches on the call. A reverted transaction leaves
  the storage as it was, so \<open>run\<close> skips it.
\<close>

datatype call =
    AddProvider address
  | RemoveProvider address
  | Pause
  | Unpause
  | SetCooldown uint256
  | OpenBatch
  | CloseBatch uint256
  | SubmitEncryptedGuess uint256 bytes32 bytes32 bytes32
  | MakeAccusation uint256 bytes32 bytes32 bytes32 uint256
  | RequestBatchSolution uint256 uint256
  | HandleAccusationCallback uint256 bytes bytes
  | HandleBatchSolutionCallback uint256 bytes bytes

fun exec :: "FHE \<Rightarrow> address \<Rightarrow> uint256 \<Rightarrow> call \<Rightarrow> state \<Rightarrow> error + (state \<times> event)" where
  "exec fhe sender timestamp (AddProvider p) s = addProvider sender p s"
| "exec fhe sender timestamp (RemoveProvider p) s = removeProvider sender p s"
| "exec fhe sender timestamp Pause s = pause sender s"
| "exec fhe sender timestamp Unpause s = unpause sender s"
| "exec fhe sender timestamp (SetCooldown c) s = setCooldown sender c s"
| "exec fhe sender timestamp OpenBatch s = openBatch sender s"
| "exec fhe sender timestamp (CloseBatch b) s = closeBatch sender b s"
| "exec fhe sender timestamp (SubmitEncryptedGuess b w r su) s =
     submitEncryptedGuess fhe sender timestamp b w r su s"
| "exec fhe sender timestamp (MakeAccusation b w r su rid) s =
     makeAccusation fhe sender timestamp b w r su rid s"
| "exec fhe sender timestamp (RequestBatchSolution b rid) s =
     requestBatchSolution fhe sender timestamp b rid s"
| "exec fhe sender timestamp (HandleAccusationCallback rid ct sg) s =
     handleAccusationCallback fhe sender rid ct sg s"
| "exec fhe sender timestamp (HandleBatchSolutionCallback rid ct sg) s =
     handleBatchSolutionCallback fhe rid ct sg s"

fun run :: "FHE \<Rightarrow> (address \<times> uint256 \<times> call) list \<Rightarrow> state \<Rightarrow> state" where
  "run fhe [] s = s"
| "run fhe ((sender, timestamp, c) # txs) s =
     (case exec fhe sender timestamp c s of
        Inl e \<Rightarrow> run fhe txs s
      | Inr (s', ev) \<Rightarrow> run fhe txs s')"

section \<open>A plaintext stand-in for the capability, and scenarios\<close>

text \<open>
  Concrete inputs need a concrete capability. In \<open>plainFHE\<close> the handle \<open>h \<noteq> 0\<close> stands
  for the plaintext \<open>h - 1\<close> and the zero handle is the uninitialized one. As the library
  does, \<open>fhe_add\<close> and \<open>fhe_eq\<close> take an uninitialized operand for \<open>asEuint32 0\<close> (the
  handle 1), and \<open>fhe_and\<close> takes one for \<open>asEbool False\<close>. The signature check accepts a
  proof that repeats the cleartexts; the digest is a polynomial in the handles. None of
  the general theorems depends on it.
\<close>

definition plainFHE :: FHE where
  "plainFHE = \<lparr>isInitialized = (\<lambda>h. h \<noteq> 0),
     asEuint32 = (\<lambda>v. ucast v + 1),
     asEbool = (\<lambda>v. if v then 2 else 1),
     fhe_add = (\<lambda>a b. (if a = 0 then 1 else a) + (if b = 0 then 1 else b) - 1),
     fhe_eq = (\<lambda>a b. if (if a = 0 then 1 else a) = (if b = 0 then 1 else b) then 2 else 1),
     fhe_and = (\<lambda>a b. if a = 2 \<and> b = 2 then 2 else 1),
     checkSignatures = (\<lambda>requestId cleartexts sigs. sigs = cleartexts),
     keccak_encode = (\<lambda>cts a. foldr (\<lambda>h acc. h + 31 * acc) cts (ucast a)),
     contract_address = 99\<rparr>"

text \<open>The request ids that the oracle hands out along a list of transactions.\<close>

fun requestIds :: "(address \<times> uint256 \<times> call) list \<Rightarrow> uint256 list" where
  "requestIds [] = []"
| "requestIds ((a, t, MakeAccusation b w r su rid) # txs) = rid # requestIds txs"
| "requestIds ((a, t, RequestBatchSolution b rid) # txs) = rid # requestIds txs"
| "requestIds ((a, t, c) # txs) = requestIds txs"

text \<open>
  A deployment by address 1, followed step by step: the owner opens batch 1; address 2
  contributes the handles 6, 7 and 8; address 3 requests the solution and the oracle
  answers with request id 7; the oracle's reply for request 7 is settled. In
  \<open>fullBatchState\<close> the addresses 3 to 11 contribute after address 2 instead, which fills
  the batch.
\<close>

definition openedState :: state where
  "openedState = run plainFHE [(1, 100, OpenBatch)] (constructor 1)"

definition contributedState :: state where
  "contributedState = run plainFHE [(2, 100, SubmitEncryptedGuess 1 6 7 8)] openedState"

definition requestedState :: state where
  "requestedState = run plainFHE [(3, 100, RequestBatchSolution 1 7)] contributedState"

definition settledState :: state where
  "settledState =
     run plainFHE [(9, 150, HandleBatchSolutionCallback 7 (replicate 96 0) (replicate 96 0))]
       requestedState"

definition fullBatchState :: state where
  "fullBatchState =
     run plainFHE [(3, 101, SubmitEncryptedGuess 1 6 7 8),
       (4, 102, SubmitEncryptedGuess 1 6 7 8), (5, 103, SubmitEncryptedGuess 1 6 7 8),
       (6, 104, SubmitEncryptedGuess 1 6 7 8), (7, 105, SubmitEncryptedGuess 1 6 7 8),
       (8, 106, SubmitEncryptedGuess 1 6 7 8), (9, 107, SubmitEncryptedGuess 1 6 7 8),
       (10, 108, SubmitEncryptedGuess 1 6 7 8), (11, 109, SubmitEncryptedGuess 1 6 7 8)]
       contributedState"

section \<open>Auxiliary facts\<close>

lemma guard_Inr_iff: "guard g body = Inr x \<longleftrightarrow> g = None \<and> body = Inr x"
  by (cases g) auto

lemma guard_Inl_iff: "guard g body = Inl e \<longleftrightarrow> g = Some e \<or> (g = None \<and> body = Inl e)"
  by (cases g) auto

lemmas modifier_defs = onlyOwner_def whenNotPaused_def checkCooldown_def

lemmas admin_defs = addProvider_def removeProvider_def pause_def unpause_def
  setCooldown_def openBatch_def closeBatch_def

lemmas player_defs = submitEncryptedGuess_def makeAccusation_def requestBatchSolution_def

lemmas callback_defs = handleAccusationCallback_def handleBatchSolutionCallback_def

lemmas rebuild_defs = rebuildIsCorrect_def rebuildBatchSolution_def requireInitialized_def
  hashCiphertexts_def

text \<open>The equations that evaluate a call on a concrete state.\<close>

lemmas eval_defs = plainFHE_def constructor_def zeroBatch_def zeroContext_def contextOf_def
  MAX_BATCH_SIZE_def overflows_def initIfNeeded_def abi_decode_bool_def
  abi_decode_uint256_3_def Let_def modifier_defs admin_defs player_defs callback_defs
  rebuild_defs word_le_nat_alt

lemmas scenario_defs = openedState_def contributedState_def requestedState_def
  settledState_def fullBatchState_def

subsection \<open>What a run preserves\<close>

text \<open>
  Each of the following is shown for one call by a case analysis over the functions of the
  contract, and for a run by induction on the list of transactions.
\<close>

lemma exec_modelVersion:
  assumes "exec fhe a t c s = Inr (s', ev)"
  shows "modelVersion s' = modelVersion s"
  using assms
  by (cases c)
     (auto simp: admin_defs player_defs callback_defs guard_Inr_iff Let_def
           split: if_splits sum.splits option.splits prod.splits)

lemma run_modelVersion: "modelVersion (run fhe txs s) = modelVersion s"
proof (induction txs arbitrary: s)
  case Nil
  show ?case by simp
next
  case (Cons tx txs)
  obtain a t c where tx: "tx = (a, t, c)" by (cases tx)
  show ?case
  proof (cases "exec fhe a t c s")
    case (Inl e)
    with tx Cons show ?thesis by simp
  next
    case (Inr r)
    obtain s' ev where r: "r = (s', ev)" by (cases r)
    from Inr r have "modelVersion s' = modelVersion s" by (simp add: exec_modelVersion)
    with tx Inr r Cons show ?thesis by simp
  qed
qed

lemma constructor_modelVersion: "modelVersion (constructor d) = 1"
  by (simp add: constructor_def)

lemma exec_processed_mono:
  assumes "ctx_processed (contextOf s requestId)"
      and "exec fhe a t c s = Inr (s', ev)"
      and "requestId \<notin> set (requestIds [(a, t, c)])"
  shows "ctx_processed (contextOf s' requestId)"
  using assms
  by (cases c)
     (auto simp: admin_defs player_defs callback_defs guard_Inr_iff Let_def contextOf_def
           split: if_splits sum.splits option.splits prod.splits)

lemma requestIds_Cons:
  "set (requestIds ((a, t, c) # txs)) = set (requestIds [(a, t, c)]) \<union> set (requestIds txs)"
  by (cases c) auto

lemma run_processed_mono:
  assumes "ctx_processed (contextOf s requestId)"
      and "requestId \<notin> set (requestIds txs)"
  shows "ctx_processed (contextOf (run fhe txs s) requestId)"
  using assms
proof (induction txs arbitrary: s)
  case Nil
  then show ?case by simp
next
  case (Cons tx txs)
  obtain a t c where tx: "tx = (a, t, c)" by (cases tx)
  from Cons.prems(2) tx have notin: "requestId \<notin> set (requestIds [(a, t, c)])"
    and rest: "requestId \<notin> set (requestIds txs)"
    using requestIds_Cons [of a t c txs] by auto
  show ?case
  proof (cases "exec fhe a t c s")
    case (Inl e)
    with tx Cons.IH [OF Cons.prems(1) rest] show ?thesis by simp
  next
    case (Inr r)
    obtain s' ev where r: "r = (s', ev)" by (cases r)
    from exec_processed_mono [OF Cons.prems(1) _ notin] Inr r
    have "ctx_processed (contextOf s' requestId)" by simp
    from Cons.IH [OF this rest] tx Inr r show ?thesis by simp
  qed
qed

text \<open>
  \<open>submissionCount++\<close> behind the \<open>BatchFull\<close> check neither wraps nor leaves the bound.
\<close>

lemma count_inc:
  fixes x :: uint256
  assumes "\<not> MAX_BATCH_SIZE \<le> x"
  shows "x + 1 \<le> MAX_BATCH_SIZE" and "unat (x + 1) = unat x + 1"
proof -
  from assms have lt: "unat x < 10"
    by (simp add: MAX_BATCH_SIZE_def word_le_nat_alt)
  then have "unat x + 1 < 2 ^ 256" by simp
  then show u: "unat (x + 1) = unat x + 1"
    by (simp add: unat_word_ariths)
  with lt show "x + 1 \<le> MAX_BATCH_SIZE"
    by (simp add: MAX_BATCH_SIZE_def word_le_nat_alt)
qed

lemma exec_count_bound:
  assumes "submissionCount (batches s b) \<le> MAX_BATCH_SIZE"
      and "exec fhe a t c s = Inr (s', ev)"
  shows "submissionCount (batches s' b) \<le> MAX_BATCH_SIZE"
  using assms
  by (cases c)
     (auto simp: admin_defs player_defs callback_defs guard_Inr_iff Let_def count_inc(1)
           split: if_splits sum.splits option.splits prod.splits)

lemma run_count_bound:
  assumes "submissionCount (batches s b) \<le> MAX_BATCH_SIZE"
  shows "submissionCount (batches (run fhe txs s) b) \<le> MAX_BATCH_SIZE"
  using assms
proof (induction txs arbitrary: s)
  case Nil
  then show ?case by simp
next
  case (Cons tx txs)
  obtain a t c where tx: "tx = (a, t, c)" by (cases tx)
  show ?case
  proof (cases "exec fhe a t c s")
    case (Inl e)
    with tx Cons show ?thesis by simp
  next
    case (Inr r)
    obtain s' ev where r: "r = (s', ev)" by (cases r)
    from exec_count_bound [OF Cons.prems] Inr r
    have "submissionCount (batches s' b) \<le> MAX_BATCH_SIZE" by simp
    from Cons.IH [OF this] tx Inr r show ?thesis by simp
  qed
qed

lemma constructor_count: "submissionCount (batches (constructor d) b) = 0"
  by (simp add: constructor_def zeroBatch_def)

lemma exec_hasSubmitted_mono:
  assumes "hasSubmitted s b a" and "exec fhe a' t c s = Inr (s', ev)"
  shows "hasSubmitted s' b a"
  using assms
  by (cases c)
     (auto simp: admin_defs player_defs callback_defs guard_Inr_iff Let_def
           split: if_splits sum.splits option.splits prod.splits)

lemma run_hasSubmitted_mono:
  assumes "hasSubmitted s b a"
  shows "hasSubmitted (run fhe txs s) b a"
  using assms
proof (induction txs arbitrary: s)
  case Nil
  then show ?case by simp
next
  case (Cons tx txs)
  obtain a' t c where tx: "tx = (a', t, c)" by (cases tx)
  show ?case
  proof (cases "exec fhe a' t c s")
    case (Inl e)
    with tx Cons show ?thesis by simp
  next
    case (Inr r)
    obtain s' ev where r: "r = (s', ev)" by (cases r)
    from exec_hasSubmitted_mono [OF Cons.prems] Inr r
    have "hasSubmitted s' b a" by simp
    from Cons.IH [OF this] tx Inr r show ?thesis by simp
  qed
qed

subsection \<open>Single calls\<close>

lemma submit_aggregates:
  assumes "submitEncryptedGuess fhe a t b w r su s = Inr (s', ev)"
  shows "encryptedWeapon (batches s' b) = fhe_add fhe (encryptedWeapon (batches s b)) w
       \<and> encryptedRoom (batches s' b) = fhe_add fhe (encryptedRoom (batches s b)) r
       \<and> encryptedSuspect (batches s' b) = fhe_add fhe (encryptedSuspect (batches s b)) su"
  using assms
  by (auto simp: submitEncryptedGuess_def guard_Inr_iff Let_def split: if_splits)

lemma settle_marks_processed:
  assumes "handleBatchSolutionCallback fhe requestId cleartexts sigs s = Inr (s1, ev)
         \<or> handleAccusationCallback fhe a requestId cleartexts sigs s = Inr (s1, ev)"
  shows "\<not> ctx_processed (contextOf s requestId) \<and> ctx_processed (contextOf s1 requestId)"
  using assms
  by (auto simp: callback_defs Let_def contextOf_def
           split: if_splits sum.splits option.splits prod.splits)

lemma processed_blocks_settle:
  assumes "ctx_processed (contextOf s requestId)"
  shows "handleBatchSolutionCallback fhe requestId cleartexts sigs s = Inl AlreadyProcessed"
    and "handleAccusationCallback fhe a requestId cleartexts sigs s = Inl AlreadyProcessed"
  using assms by (simp_all add: callback_defs)

lemma full_batch_rejects:
  assumes "MAX_BATCH_SIZE \<le> submissionCount (batches s b)"
  shows "isl (submitEncryptedGuess fhe a t b w r su s)"
  using assms
  by (cases "whenNotPaused s"; cases "checkCooldown t a (lastSubmissionAt s) s")
     (simp_all add: submitEncryptedGuess_def)

lemma gates_RateLimited:
  "guard (whenNotPaused s) (guard (checkCooldown t a lastAction s) body) = Inl RateLimited
   \<longleftrightarrow> (\<not> paused s \<and> \<not> overflows (lastAction a) (cooldownSeconds s)
        \<and> t < lastAction a + cooldownSeconds s)
       \<or> (\<not> paused s \<and> \<not> overflows (lastAction a) (cooldownSeconds s)
        \<and> \<not> t < lastAction a + cooldownSeconds s \<and> body = Inl RateLimited)"
  by (auto simp: modifier_defs)

lemma first_success_marks:
  assumes "submitEncryptedGuess fhe a t b w r su s = Inr (s1, ev)
         \<or> makeAccusation fhe a t b w r su requestId s = Inr (s1, ev)"
  shows "isOpen (batches s b) \<and> \<not> hasSubmitted s b a \<and> hasSubmitted s1 b a"
  using assms
  by (auto simp: submitEncryptedGuess_def makeAccusation_def guard_Inr_iff Let_def
           split: if_splits)

lemma submitted_blocks_both:
  assumes "hasSubmitted s b a"
  shows "isl (submitEncryptedGuess fhe a t b w r su s)"
    and "isl (makeAccusation fhe a t b w r su requestId s)"
  using assms
  by (cases "whenNotPaused s"; cases "checkCooldown t a (lastSubmissionAt s) s";
      simp add: submitEncryptedGuess_def makeAccusation_def)+

lemma submitted_InvalidState:
  assumes "hasSubmitted s b a" and "\<not> paused s"
      and "\<not> overflows (lastSubmissionAt s a) (cooldownSeconds s)"
      and "lastSubmissionAt s a + cooldownSeconds s \<le> t"
      and "isOpen (batches s b)"
  shows "makeAccusation fhe a t b w r su requestId s = Inl InvalidState"
    and "\<not> MAX_BATCH_SIZE \<le> submissionCount (batches s b)
         \<Longrightarrow> submitEncryptedGuess fhe a t b w r su s = Inl InvalidState"
  using assms
  by (auto simp: submitEncryptedGuess_def makeAccusation_def modifier_defs)

lemma exec_providers_irrelevant:
  "case exec fhe a t c s of
      Inl e \<Rightarrow> exec fhe a t c (s\<lparr>providers := p\<rparr>) = Inl e
    | Inr (s', ev) \<Rightarrow>
        (\<exists>q. exec fhe a t c (s\<lparr>providers := p\<rparr>) = Inr (s'\<lparr>providers := q\<rparr>, ev))"
proof (cases c)
  case (AddProvider x)
  then show ?thesis
    by (cases "a = owner s")
       (auto simp: addProvider_def onlyOwner_def intro: exI [of _ "p(x := True)"])
next
  case (RemoveProvider x)
  then show ?thesis
    by (cases "a = owner s")
       (auto simp: removeProvider_def onlyOwner_def intro: exI [of _ "p(x := False)"])
next
  case Pause
  then show ?thesis
    by (cases "a = owner s") (auto simp: pause_def onlyOwner_def intro: exI [of _ p])
next
  case Unpause
  then show ?thesis
    by (cases "a = owner s") (auto simp: unpause_def onlyOwner_def intro: exI [of _ p])
next
  case (SetCooldown x)
  then show ?thesis
    by (cases "a = owner s") (auto simp: setCooldown_def onlyOwner_def intro: exI [of _ p])
next
  case OpenBatch
  then show ?thesis
    by (cases "a = owner s")
       (auto simp: openBatch_def onlyOwner_def Let_def intro: exI [of _ p])
next
  case (CloseBatch x)
  then show ?thesis
    by (cases "a = owner s") (auto simp: closeBatch_def onlyOwner_def intro: exI [of _ p])
next
  case (SubmitEncryptedGuess b w r su)
  then show ?thesis
    by (auto simp: submitEncryptedGuess_def modifier_defs Let_def intro: exI [of _ p])
next
  case (MakeAccusation b w r su rid)
  then show ?thesis
    by (auto simp: makeAccusation_def modifier_defs Let_def intro: exI [of _ p])
next
  case (RequestBatchSolution b rid)
  then show ?thesis
    by (auto simp: requestBatchSolution_def modifier_defs Let_def intro: exI [of _ p])
next
  case (HandleAccusationCallback rid ct sg)
  then show ?thesis
    by (auto simp: handleAccusationCallback_def rebuild_defs contextOf_def Let_def
             split: option.splits intro: exI [of _ p])
next
  case (HandleBatchSolutionCallback rid ct sg)
  then show ?thesis
    by (auto simp: handleBatchSolutionCallback_def rebuild_defs contextOf_def Let_def
             split: option.splits intro: exI [of _ p])
qed

lemma exec_not_NotProvider: "exec fhe a t c s \<noteq> Inl NotProvider"
  by (cases c)
     (auto simp: admin_defs player_defs callback_defs rebuild_defs modifier_defs
           guard_Inl_iff Let_def
           split: if_splits sum.splits option.splits prod.splits)

section \<open>The claims\<close>

subsection \<open>Aggregation\<close>



subsection \<open>Settlement\<close>

text \<open>
  Claim C2: when a submission to a batch is accepted after a solution request for that
  batch was issued, the settlement of that request fails with \<open>InvalidState\<close> and the
  context stays unprocessed (a failed call changes nothing and emits nothing). The
  request stores the digest of the three aggregate handles; the submission replaces each
  by the handle \<open>FHE.add\<close> returns; the callback hashes the handles it finds in storage
  (or fails with \<open>InvalidState\<close> already when one of them is uninitialized). The third
  premise is the property of the external hash and handles that the claim relies on: the
  digest tells the new handles from the old.
\<close>

theorem submission_after_request_blocks_settlement:
  assumes request: "requestBatchSolution fhe a t b requestId s0 = Inr (s1, e1)"
      and submission: "submitEncryptedGuess fhe a' t' b w r su s1 = Inr (s2, e2)"
      and digest:
        "keccak_encode fhe
           [fhe_add fhe (encryptedWeapon (batches s0 b)) w,
            fhe_add fhe (encryptedRoom (batches s0 b)) r,
            fhe_add fhe (encryptedSuspect (batches s0 b)) su] (contract_address fhe)
         \<noteq> keccak_encode fhe
           [encryptedWeapon (batches s0 b), encryptedRoom (batches s0 b),
            encryptedSuspect (batches s0 b)] (contract_address fhe)"
  shows "handleBatchSolutionCallback fhe requestId cleartexts sigs s2 = Inl InvalidState
       \<and> \<not> ctx_processed (contextOf s2 requestId)"
proof -
  let ?h = "keccak_encode fhe
           [encryptedWeapon (batches s0 b), encryptedRoom (batches s0 b),
            encryptedSuspect (batches s0 b)] (contract_address fhe)"
  from request have ctx1: "decryptionContexts s1 requestId =
      Some \<lparr>ctx_batchId = b, ctx_modelVersion = modelVersion s0, ctx_stateHash = ?h,
            ctx_processed = False\<rparr>"
    and b1: "batches s1 = batches s0" and v1: "modelVersion s1 = modelVersion s0"
    by (auto simp: requestBatchSolution_def guard_Inr_iff Let_def hashCiphertexts_def
             split: if_splits)
  from submission have ctx2: "decryptionContexts s2 = decryptionContexts s1"
    and v2: "modelVersion s2 = modelVersion s1"
    by (auto simp: submitEncryptedGuess_def guard_Inr_iff Let_def split: if_splits)
  from submit_aggregates [OF submission] b1
  have agg: "encryptedWeapon (batches s2 b) = fhe_add fhe (encryptedWeapon (batches s0 b)) w"
    "encryptedRoom (batches s2 b) = fhe_add fhe (encryptedRoom (batches s0 b)) r"
    "encryptedSuspect (batches s2 b) = fhe_add fhe (encryptedSuspect (batches s0 b)) su"
    by simp_all
  have c: "contextOf s2 requestId = \<lparr>ctx_batchId = b, ctx_modelVersion = modelVersion s2,
      ctx_stateHash = ?h, ctx_processed = False\<rparr>"
    by (simp add: contextOf_def ctx2 ctx1 v1 v2)
  show ?thesis
    using digest
    by (simp add: handleBatchSolutionCallback_def c rebuildBatchSolution_def
          requireInitialized_def hashCiphertexts_def agg Let_def)
qed

theorem submission_after_request_blocks_settlement_witness:
  "requestBatchSolution plainFHE 3 100 1 7 contributedState
     = Inr (requestedState, DecryptionRequested 7 1 2957220)
   \<and> submitEncryptedGuess plainFHE 4 100 1 9 10 11 requestedState
     = Inr (run plainFHE [(4, 100, SubmitEncryptedGuess 1 9 10 11)] requestedState,
            Submission 4 1 9 10 11)
   \<and> handleBatchSolutionCallback plainFHE 7 (replicate 96 0) (replicate 96 0)
       (run plainFHE [(4, 100, SubmitEncryptedGuess 1 9 10 11)] requestedState)
     = Inl InvalidState
   \<and> \<not> ctx_processed
       (contextOf (run plainFHE [(4, 100, SubmitEncryptedGuess 1 9 10 11)] requestedState) 7)"
proof -
  let ?s2 = "run plainFHE [(4, 100, SubmitEncryptedGuess 1 9 10 11)] requestedState"
  have h1: "requestBatchSolution plainFHE 3 100 1 7 contributedState
      = Inr (requestedState, DecryptionRequested 7 1 2957220)"
    by (simp add: scenario_defs eval_defs)
  have h2: "submitEncryptedGuess plainFHE 4 100 1 9 10 11 requestedState
      = Inr (?s2, Submission 4 1 9 10 11)"
    by (simp add: scenario_defs eval_defs)
  have h3: "keccak_encode plainFHE
           [fhe_add plainFHE (encryptedWeapon (batches contributedState 1)) 9,
            fhe_add plainFHE (encryptedRoom (batches contributedState 1)) 10,
            fhe_add plainFHE (encryptedSuspect (batches contributedState 1)) 11]
           (contract_address plainFHE)
         \<noteq> keccak_encode plainFHE
           [encryptedWeapon (batches contributedState 1),
            encryptedRoom (batches contributedState 1),
            encryptedSuspect (batches contributedState 1)] (contract_address plainFHE)"
    by (simp add: scenario_defs eval_defs)
  from submission_after_request_blocks_settlement [OF h1 h2 h3] h1 h2
  show ?thesis by blast
qed

text \<open>
  Claim C3 names an administrative action that increments the version counter and makes
  the settlement of earlier requests fail with \<open>StaleVersion\<close>. The contract has seven
  owner-only functions. Performed by the owner on the state in which request 7 is
  pending, each of them succeeds, and the settlement of request 7 succeeds afterwards.
\<close>

theorem admin_actions_do_not_stale:
  "\<not> isl (exec plainFHE 1 200 (AddProvider 5) requestedState)
   \<and> \<not> isl (handleBatchSolutionCallback plainFHE 7 (replicate 96 0) (replicate 96 0)
        (run plainFHE [(1, 200, AddProvider 5)] requestedState))
   \<and> \<not> isl (exec plainFHE 1 200 (RemoveProvider 5) requestedState)
   \<and> \<not> isl (handleBatchSolutionCallback plainFHE 7 (replicate 96 0) (replicate 96 0)
        (run plainFHE [(1, 200, RemoveProvider 5)] requestedState))
   \<and> \<not> isl (exec plainFHE 1 200 Pause requestedState)
   \<and> \<not> isl (handleBatchSolutionCallback plainFHE 7 (replicate 96 0) (replicate 96 0)
        (run plainFHE [(1, 200, Pause)] requestedState))
   \<and> \<not> isl (exec plainFHE 1 200 Unpause requestedState)
   \<and> \<not> isl (handleBatchSolutionCallback plainFHE 7 (replicate 96 0) (replicate 96 0)
        (run plainFHE [(1, 200, Unpause)] requestedState))
   \<and> \<not> isl (exec plainFHE 1 200 (SetCooldown 60) requestedState)
   \<and> \<not> isl (handleBatchSolutionCallback plainFHE 7 (replicate 96 0) (replicate 96 0)
        (run plainFHE [(1, 200, SetCooldown 60)] requestedState))
   \<and> \<not> isl (exec plainFHE 1 200 OpenBatch requestedState)
   \<and> \<not> isl (handleBatchSolutionCallback plainFHE 7 (replicate 96 0) (replicate 96 0)
        (run plainFHE [(1, 200, OpenBatch)] requestedState))
   \<and> \<not> isl (exec plainFHE 1 200 (CloseBatch 1) requestedState)
   \<and> \<not> isl (handleBatchSolutionCallback plainFHE 7 (replicate 96 0) (replicate 96 0)
        (run plainFHE [(1, 200, CloseBatch 1)] requestedState))"
  by (simp add: scenario_defs eval_defs)

text \<open>
  Claim C3, as the contract has it: no call changes the version counter, whoever makes it;
  and the settlement of an unprocessed context fails with \<open>StaleVersion\<close> when the version
  recorded in the context differs from the counter.
\<close>

theorem version_counter_never_changes:
  "(exec fhe a t c s = Inr (s', ev) \<longrightarrow> modelVersion s' = modelVersion s)
   \<and> (\<not> ctx_processed (contextOf s requestId)
        \<and> ctx_modelVersion (contextOf s requestId) \<noteq> modelVersion s \<longrightarrow>
      handleAccusationCallback fhe a requestId cleartexts sigs s = Inl StaleVersion
      \<and> handleBatchSolutionCallback fhe requestId cleartexts sigs s = Inl StaleVersion)"
  by (simp add: exec_modelVersion callback_defs)

theorem version_counter_never_changes_witness:
  "exec plainFHE 1 200 Pause requestedState = Inr (requestedState\<lparr>paused := True\<rparr>, PausedEvent)
   \<and> modelVersion (requestedState\<lparr>paused := True\<rparr>) = modelVersion requestedState
   \<and> \<not> ctx_processed (contextOf requestedState 8)
   \<and> ctx_modelVersion (contextOf requestedState 8) \<noteq> modelVersion requestedState
   \<and> handleAccusationCallback plainFHE 1 8 [] [] requestedState = Inl StaleVersion
   \<and> handleBatchSolutionCallback plainFHE 8 [] [] requestedState = Inl StaleVersion"
proof -
  have h1: "exec plainFHE 1 200 Pause requestedState
      = Inr (requestedState\<lparr>paused := True\<rparr>, PausedEvent)"
    by (simp add: scenario_defs eval_defs)
  have h2: "\<not> ctx_processed (contextOf requestedState 8)
      \<and> ctx_modelVersion (contextOf requestedState 8) \<noteq> modelVersion requestedState"
    by (simp add: scenario_defs eval_defs)
  from version_counter_never_changes [where fhe = plainFHE and a = 1 and t = 200
      and c = Pause and s = requestedState and s' = "requestedState\<lparr>paused := True\<rparr>"
      and ev = PausedEvent and requestId = 8 and cleartexts = "[]" and sigs = "[]"] h1 h2
  show ?thesis by blast
qed

text \<open>
  Claim C4 has the settlement of a request id that was never stored fail with a condition
  of its own, ahead of every other check. The contract has no such check. On the deployed
  contract, where nothing is stored under request id 7, both callbacks fail with the
  error of the version check.
\<close>

theorem unknown_request_reports_stale_version:
  "decryptionContexts (constructor 1) 7 = None
   \<and> handleBatchSolutionCallback plainFHE 7 [] [] (constructor 1) = Inl StaleVersion
   \<and> handleAccusationCallback plainFHE 2 7 [] [] (constructor 1) = Inl StaleVersion"
  by (simp add: eval_defs)

text \<open>
  Claim C4, as the contract has it: in every state reached from deployment, the
  settlement of a request id under which no context was stored fails with
  \<open>StaleVersion\<close>, whatever the cleartexts and the proof. The zero context that is read
  passes the \<open>AlreadyProcessed\<close> check and fails the version check, because its version is
  0 and the counter is 1. Nothing is written: the call fails.
\<close>

theorem unknown_request_fails_stale:
  assumes "s = run fhe txs (constructor d)"
      and "decryptionContexts s requestId = None"
  shows "handleAccusationCallback fhe a requestId cleartexts sigs s = Inl StaleVersion
       \<and> handleBatchSolutionCallback fhe requestId cleartexts sigs s = Inl StaleVersion"
proof -
  have "modelVersion s = 1"
    using assms(1) by (simp add: run_modelVersion constructor_modelVersion)
  with assms(2) show ?thesis
    by (simp add: callback_defs contextOf_def zeroContext_def)
qed

theorem unknown_request_fails_stale_witness:
  "requestedState = run plainFHE [(1, 100, OpenBatch), (2, 100, SubmitEncryptedGuess 1 6 7 8),
       (3, 100, RequestBatchSolution 1 7)] (constructor 1)
   \<and> decryptionContexts requestedState 8 = None
   \<and> handleAccusationCallback plainFHE 2 8 [1, 2] [3] requestedState = Inl StaleVersion
   \<and> handleBatchSolutionCallback plainFHE 8 [1, 2] [3] requestedState = Inl StaleVersion"
proof -
  have h1: "requestedState = run plainFHE [(1, 100, OpenBatch),
      (2, 100, SubmitEncryptedGuess 1 6 7 8), (3, 100, RequestBatchSolution 1 7)]
      (constructor 1)"
    by (simp add: scenario_defs eval_defs)
  have h2: "decryptionContexts requestedState 8 = None"
    by (simp add: scenario_defs eval_defs)
  from unknown_request_fails_stale [OF h1 h2] h1 h2
  show ?thesis by blast
qed

text \<open>
  Claim C5: the \<open>processed\<close> flag of a context goes from false to true once and never
  back. A settlement that succeeds found the flag false and leaves it true; it stays true
  along every later run of transactions in which the oracle does not hand out the same
  request id again (the oracle's ids are unique); and where it is true, both callbacks
  fail with \<open>AlreadyProcessed\<close>, which leaves the state as it was.
\<close>

theorem processed_is_set_once:
  assumes settle:
        "handleBatchSolutionCallback fhe requestId cleartexts sigs s = Inr (s1, ev)
         \<or> handleAccusationCallback fhe a requestId cleartexts sigs s = Inr (s1, ev)"
      and unique: "requestId \<notin> set (requestIds txs)"
  shows "\<not> ctx_processed (contextOf s requestId)
       \<and> ctx_processed (contextOf s1 requestId)
       \<and> ctx_processed (contextOf (run fhe txs s1) requestId)
       \<and> handleBatchSolutionCallback fhe requestId cleartexts' sigs' (run fhe txs s1)
           = Inl AlreadyProcessed
       \<and> handleAccusationCallback fhe a' requestId cleartexts' sigs' (run fhe txs s1)
           = Inl AlreadyProcessed"
proof -
  from settle_marks_processed [OF settle]
  have before: "\<not> ctx_processed (contextOf s requestId)"
    and after: "ctx_processed (contextOf s1 requestId)" by simp_all
  from run_processed_mono [OF after unique]
  have later: "ctx_processed (contextOf (run fhe txs s1) requestId)" .
  from before after later processed_blocks_settle [OF later] show ?thesis by simp
qed

theorem processed_is_set_once_witness:
  "handleBatchSolutionCallback plainFHE 7 (replicate 96 0) (replicate 96 0) requestedState
     = Inr (settledState,
            DecryptionComplete 7 1 (abi_word (replicate 96 0) 0, abi_word (replicate 96 0) 1,
              abi_word (replicate 96 0) 2))
   \<and> 7 \<notin> set (requestIds [(4, 200, SubmitEncryptedGuess 1 9 10 11),
                (5, 200, RequestBatchSolution 1 8), (1, 300, Pause)])
   \<and> \<not> ctx_processed (contextOf requestedState 7)
   \<and> ctx_processed (contextOf settledState 7)
   \<and> handleBatchSolutionCallback plainFHE 7 (replicate 96 0) (replicate 96 0)
       (run plainFHE [(4, 200, SubmitEncryptedGuess 1 9 10 11),
                (5, 200, RequestBatchSolution 1 8), (1, 300, Pause)] settledState)
     = Inl AlreadyProcessed
   \<and> handleAccusationCallback plainFHE 9 7 (replicate 32 0) (replicate 32 0)
       (run plainFHE [(4, 200, SubmitEncryptedGuess 1 9 10 11),
                (5, 200, RequestBatchSolution 1 8), (1, 300, Pause)] settledState)
     = Inl AlreadyProcessed"
proof -
  have h1: "handleBatchSolutionCallback plainFHE 7 (replicate 96 0) (replicate 96 0)
      requestedState
     = Inr (settledState,
            DecryptionComplete 7 1 (abi_word (replicate 96 0) 0, abi_word (replicate 96 0) 1,
              abi_word (replicate 96 0) 2))
     \<or> handleAccusationCallback plainFHE 9 7 (replicate 96 0) (replicate 96 0) requestedState
     = Inr (settledState,
            DecryptionComplete 7 1 (abi_word (replicate 96 0) 0, abi_word (replicate 96 0) 1,
              abi_word (replicate 96 0) 2))"
    by (simp add: scenario_defs eval_defs)
  have h1': "handleBatchSolutionCallback plainFHE 7 (replicate 96 0) (replicate 96 0)
      requestedState
     = Inr (settledState,
            DecryptionComplete 7 1 (abi_word (replicate 96 0) 0, abi_word (replicate 96 0) 1,
              abi_word (replicate 96 0) 2))"
    by (simp add: scenario_defs eval_defs)
  have h2: "7 \<notin> set (requestIds [(4, 200, SubmitEncryptedGuess 1 9 10 11),
                (5, 200, RequestBatchSolution 1 8), (1, 300, Pause)])"
    by simp
  from processed_is_set_once [OF h1 h2, where cleartexts' = "replicate 96 0"
      and sigs' = "replicate 96 0" and a' = 9]
    processed_is_set_once [OF h1 h2, where cleartexts' = "replicate 32 0"
      and sigs' = "replicate 32 0" and a' = 9] h1' h2
  show ?thesis by blast
qed

subsection \<open>Submissions\<close>

text \<open>
  Claim C6 lists the failures of \<open>submitEncryptedGuess\<close> starting with \<open>BatchClosed\<close>. The
  two modifiers of the function run before its body: on a paused contract a submission to
  a batch that is not open fails with \<open>Paused\<close>.
\<close>

theorem paused_submission_to_closed_batch:
  "paused (run plainFHE [(1, 100, Pause)] (constructor 1))
   \<and> \<not> isOpen (batches (run plainFHE [(1, 100, Pause)] (constructor 1)) 1)
   \<and> submitEncryptedGuess plainFHE 2 100 1 6 7 8
       (run plainFHE [(1, 100, Pause)] (constructor 1)) = Inl Paused"
  by (simp add: eval_defs)

text \<open>
  Claim C6, as the contract has it: when the contract is not paused and the caller's
  cooldown has elapsed (the two modifiers pass), \<open>submitEncryptedGuess\<close> fails with
  \<open>BatchClosed\<close> if the batch is not open, else with \<open>BatchFull\<close> if \<open>submissionCount\<close>
  equals \<open>MAX_BATCH_SIZE\<close>, else with \<open>InvalidState\<close> if the caller has submitted to the
  batch; otherwise it succeeds, increments \<open>submissionCount\<close> by exactly one and marks the
  caller, and only the caller, as having submitted. The count is taken within its bound,
  as it is in every reachable state (\<open>run_count_bound\<close>); the source tests
  \<open>submissionCount >= MAX_BATCH_SIZE\<close>.
\<close>

theorem submit_checks_in_order:
  assumes "\<not> paused s"
      and "\<not> overflows (lastSubmissionAt s a) (cooldownSeconds s)"
      and "lastSubmissionAt s a + cooldownSeconds s \<le> t"
      and "submissionCount (batches s b) \<le> MAX_BATCH_SIZE"
  shows "(\<not> isOpen (batches s b) \<longrightarrow>
            submitEncryptedGuess fhe a t b w r su s = Inl BatchClosed)
       \<and> (isOpen (batches s b) \<and> submissionCount (batches s b) = MAX_BATCH_SIZE \<longrightarrow>
            submitEncryptedGuess fhe a t b w r su s = Inl BatchFull)
       \<and> (isOpen (batches s b) \<and> submissionCount (batches s b) \<noteq> MAX_BATCH_SIZE
            \<and> hasSubmitted s b a \<longrightarrow>
            submitEncryptedGuess fhe a t b w r su s = Inl InvalidState)
       \<and> (isOpen (batches s b) \<and> submissionCount (batches s b) \<noteq> MAX_BATCH_SIZE
            \<and> \<not> hasSubmitted s b a \<longrightarrow>
            (\<exists>s'. submitEncryptedGuess fhe a t b w r su s = Inr (s', Submission a b w r su)
               \<and> submissionCount (batches s' b) = submissionCount (batches s b) + 1
               \<and> unat (submissionCount (batches s' b))
                   = unat (submissionCount (batches s b)) + 1
               \<and> hasSubmitted s' = (hasSubmitted s)(b := (hasSubmitted s b)(a := True))))"
proof -
  have gates: "whenNotPaused s = None" "checkCooldown t a (lastSubmissionAt s) s = None"
    using assms(1-3) by (simp_all add: modifier_defs not_less)
  have full: "submissionCount (batches s b) \<noteq> MAX_BATCH_SIZE
      \<Longrightarrow> \<not> MAX_BATCH_SIZE \<le> submissionCount (batches s b)"
    using assms(4) by simp
  show ?thesis
    using full count_inc(2) [of "submissionCount (batches s b)"]
    by (auto simp: submitEncryptedGuess_def gates Let_def)
qed

theorem submit_checks_in_order_witness:
  "submitEncryptedGuess plainFHE 2 100 2 6 7 8 openedState = Inl BatchClosed
   \<and> submitEncryptedGuess plainFHE 12 200 1 6 7 8 fullBatchState = Inl BatchFull
   \<and> submitEncryptedGuess plainFHE 2 200 1 6 7 8 contributedState = Inl InvalidState
   \<and> (\<exists>s'. submitEncryptedGuess plainFHE 2 100 1 6 7 8 openedState
              = Inr (s', Submission 2 1 6 7 8)
         \<and> unat (submissionCount (batches s' 1))
             = unat (submissionCount (batches openedState 1)) + 1
         \<and> hasSubmitted s' = (hasSubmitted openedState)(1 := (hasSubmitted openedState 1)(2 := True)))"
proof -
  have closed: "\<not> paused openedState"
    "\<not> overflows (lastSubmissionAt openedState 2) (cooldownSeconds openedState)"
    "lastSubmissionAt openedState 2 + cooldownSeconds openedState \<le> 100"
    "submissionCount (batches openedState 2) \<le> MAX_BATCH_SIZE"
    "\<not> isOpen (batches openedState 2)"
    by (simp_all add: scenario_defs eval_defs)
  have full: "\<not> paused fullBatchState"
    "\<not> overflows (lastSubmissionAt fullBatchState 12) (cooldownSeconds fullBatchState)"
    "lastSubmissionAt fullBatchState 12 + cooldownSeconds fullBatchState \<le> 200"
    "submissionCount (batches fullBatchState 1) \<le> MAX_BATCH_SIZE"
    "isOpen (batches fullBatchState 1)
     \<and> submissionCount (batches fullBatchState 1) = MAX_BATCH_SIZE"
    by (simp_all add: scenario_defs eval_defs)
  have again: "\<not> paused contributedState"
    "\<not> overflows (lastSubmissionAt contributedState 2) (cooldownSeconds contributedState)"
    "lastSubmissionAt contributedState 2 + cooldownSeconds contributedState \<le> 200"
    "submissionCount (batches contributedState 1) \<le> MAX_BATCH_SIZE"
    "isOpen (batches contributedState 1)
     \<and> submissionCount (batches contributedState 1) \<noteq> MAX_BATCH_SIZE
     \<and> hasSubmitted contributedState 1 2"
    by (simp_all add: scenario_defs eval_defs)
  have fresh: "submissionCount (batches openedState 1) \<le> MAX_BATCH_SIZE"
    "isOpen (batches openedState 1)
     \<and> submissionCount (batches openedState 1) \<noteq> MAX_BATCH_SIZE
     \<and> \<not> hasSubmitted openedState 1 2"
    by (simp_all add: scenario_defs eval_defs)
  from submit_checks_in_order [OF closed(1-4), where fhe = plainFHE and w = 6 and r = 7
      and su = 8] closed(5)
  have 1: "submitEncryptedGuess plainFHE 2 100 2 6 7 8 openedState = Inl BatchClosed"
    by blast
  from submit_checks_in_order [OF full(1-4), where fhe = plainFHE and w = 6 and r = 7
      and su = 8] full(5)
  have 2: "submitEncryptedGuess plainFHE 12 200 1 6 7 8 fullBatchState = Inl BatchFull"
    by blast
  from submit_checks_in_order [OF again(1-4), where fhe = plainFHE and w = 6 and r = 7
      and su = 8] again(5)
  have 3: "submitEncryptedGuess plainFHE 2 200 1 6 7 8 contributedState = Inl InvalidState"
    by blast
  from submit_checks_in_order [OF closed(1-3) fresh(1), where fhe = plainFHE and w = 6
      and r = 7 and su = 8] fresh(2)
  have 4: "\<exists>s'. submitEncryptedGuess plainFHE 2 100 1 6 7 8 openedState
              = Inr (s', Submission 2 1 6 7 8)
         \<and> unat (submissionCount (batches s' 1))
             = unat (submissionCount (batches openedState 1)) + 1
         \<and> hasSubmitted s' = (hasSubmitted openedState)(1 := (hasSubmitted openedState 1)(2 := True))"
    by blast
  from 1 2 3 4 show ?thesis by blast
qed

text \<open>
  Claim C7 has a submission to a full open batch fail with \<open>BatchFull\<close>. Once the owner
  pauses the contract with batch 1 full and open, a further submission fails with
  \<open>Paused\<close>.
\<close>

theorem paused_submission_to_full_batch:
  "isOpen (batches (run plainFHE [(1, 200, Pause)] fullBatchState) 1)
   \<and> submissionCount (batches (run plainFHE [(1, 200, Pause)] fullBatchState) 1)
       = MAX_BATCH_SIZE
   \<and> submitEncryptedGuess plainFHE 12 200 1 6 7 8
       (run plainFHE [(1, 200, Pause)] fullBatchState) = Inl Paused"
  by (simp add: scenario_defs eval_defs)

text \<open>
  Claim C7, as the contract has it: in every state reached from deployment and for every
  batch, \<open>submissionCount\<close> is at most \<open>MAX_BATCH_SIZE\<close>, which is 10 (and at least 0, being
  unsigned); every call preserves the bound; a submission to a batch whose count equals
  \<open>MAX_BATCH_SIZE\<close> always fails, so it changes nothing; and it fails with \<open>BatchFull\<close> when
  the batch is open, the contract is not paused and the caller's cooldown has elapsed.
\<close>

theorem submission_count_bounded:
  "submissionCount (batches (run fhe txs (constructor d)) b) \<le> MAX_BATCH_SIZE
   \<and> unat (submissionCount (batches (run fhe txs (constructor d)) b)) \<le> 10
   \<and> (submissionCount (batches s b) \<le> MAX_BATCH_SIZE \<and> exec fhe a' t' c s = Inr (s', ev)
        \<longrightarrow> submissionCount (batches s' b) \<le> MAX_BATCH_SIZE)
   \<and> (submissionCount (batches s b) = MAX_BATCH_SIZE
        \<longrightarrow> isl (submitEncryptedGuess fhe a t b w r su s))
   \<and> (isOpen (batches s b) \<and> submissionCount (batches s b) = MAX_BATCH_SIZE
        \<and> \<not> paused s \<and> \<not> overflows (lastSubmissionAt s a) (cooldownSeconds s)
        \<and> lastSubmissionAt s a + cooldownSeconds s \<le> t
        \<longrightarrow> submitEncryptedGuess fhe a t b w r su s = Inl BatchFull)"
proof -
  have reach: "submissionCount (batches (run fhe txs (constructor d)) b) \<le> MAX_BATCH_SIZE"
    by (rule run_count_bound) (simp add: constructor_count)
  then have "unat (submissionCount (batches (run fhe txs (constructor d)) b)) \<le> 10"
    by (simp add: MAX_BATCH_SIZE_def word_le_nat_alt)
  moreover have "submissionCount (batches s b) = MAX_BATCH_SIZE
        \<longrightarrow> isl (submitEncryptedGuess fhe a t b w r su s)"
    by (simp add: full_batch_rejects)
  moreover have "isOpen (batches s b) \<and> submissionCount (batches s b) = MAX_BATCH_SIZE
        \<and> \<not> paused s \<and> \<not> overflows (lastSubmissionAt s a) (cooldownSeconds s)
        \<and> lastSubmissionAt s a + cooldownSeconds s \<le> t
        \<longrightarrow> submitEncryptedGuess fhe a t b w r su s = Inl BatchFull"
    by (auto simp: submitEncryptedGuess_def modifier_defs)
  ultimately show ?thesis using reach exec_count_bound by blast
qed

theorem submission_count_bounded_witness:
  "submissionCount (batches fullBatchState 1) \<le> MAX_BATCH_SIZE
   \<and> exec plainFHE 1 200 Pause fullBatchState = Inr (fullBatchState\<lparr>paused := True\<rparr>, PausedEvent)
   \<and> submissionCount (batches (fullBatchState\<lparr>paused := True\<rparr>) 1) \<le> MAX_BATCH_SIZE
   \<and> submissionCount (batches fullBatchState 1) = MAX_BATCH_SIZE
   \<and> isl (submitEncryptedGuess plainFHE 12 200 1 6 7 8 fullBatchState)
   \<and> submitEncryptedGuess plainFHE 12 200 1 6 7 8 fullBatchState = Inl BatchFull"
proof -
  have h1: "submissionCount (batches fullBatchState 1) \<le> MAX_BATCH_SIZE"
    by (simp add: scenario_defs eval_defs)
  have h2: "exec plainFHE 1 200 Pause fullBatchState
      = Inr (fullBatchState\<lparr>paused := True\<rparr>, PausedEvent)"
    by (simp add: scenario_defs eval_defs)
  have h3: "isOpen (batches fullBatchState 1)
      \<and> submissionCount (batches fullBatchState 1) = MAX_BATCH_SIZE
      \<and> \<not> paused fullBatchState
      \<and> \<not> overflows (lastSubmissionAt fullBatchState 12) (cooldownSeconds fullBatchState)
      \<and> lastSubmissionAt fullBatchState 12 + cooldownSeconds fullBatchState \<le> 200"
    by (simp add: scenario_defs eval_defs)
  from submission_count_bounded [where fhe = plainFHE and b = 1 and s = fullBatchState
      and a' = 1 and t' = 200 and c = Pause and s' = "fullBatchState\<lparr>paused := True\<rparr>"
      and ev = PausedEvent and a = 12 and t = 200 and w = 6 and r = 7 and su = 8]
    h1 h2 h3
  show ?thesis by blast
qed

subsection \<open>Cooldown\<close>

text \<open>
  Claim C8 has a cooldown-gated call fail with \<open>RateLimited\<close> exactly when the timestamp is
  inside the caller's cooldown window. Address 2 contributed at time 100 and the cooldown
  is 30 seconds; at time 110, inside the window, its next submission fails with \<open>Paused\<close>
  when the owner has paused the contract in between, and with an arithmetic panic when the
  owner has set the cooldown to the largest \<open>uint256\<close> (the word \<open>- 1\<close>), for which the checked sum
  \<open>lastAction + cooldownSeconds\<close> overflows.
\<close>

theorem inside_cooldown_not_rate_limited:
  "110 < lastSubmissionAt (run plainFHE [(1, 105, Pause)] contributedState) 2
         + cooldownSeconds (run plainFHE [(1, 105, Pause)] contributedState)
   \<and> submitEncryptedGuess plainFHE 2 110 1 6 7 8
       (run plainFHE [(1, 105, Pause)] contributedState) = Inl Paused
   \<and> unat (110 :: uint256)
       < unat (lastSubmissionAt (run plainFHE [(1, 105, SetCooldown (- 1))] contributedState) 2)
         + unat (cooldownSeconds (run plainFHE [(1, 105, SetCooldown (- 1))] contributedState))
   \<and> submitEncryptedGuess plainFHE 2 110 1 6 7 8
       (run plainFHE [(1, 105, SetCooldown (- 1))] contributedState) = Inl Panic"
  by (simp add: scenario_defs eval_defs unsigned_minus_1_eq_mask mask_eq_exp_minus_1)

text \<open>
  Claim C8, as the contract has it: when the contract is not paused and the sum
  \<open>lastAction[caller] + cooldownSeconds\<close> does not overflow, a cooldown-gated call
  (\<open>submitEncryptedGuess\<close> and \<open>makeAccusation\<close> on the submission ledger,
  \<open>requestBatchSolution\<close> on the request ledger) fails with \<open>RateLimited\<close> exactly when the
  timestamp is less than that sum, and in no other case. The caller's entry in the ledger
  of the call's category is set to the timestamp when the call succeeds, and the other
  ledger is left alone; a call that fails writes nothing.
\<close>

theorem cooldown_gate:
  "(submitEncryptedGuess fhe a t b w r su s = Inl RateLimited \<longleftrightarrow>
      \<not> paused s \<and> \<not> overflows (lastSubmissionAt s a) (cooldownSeconds s)
      \<and> t < lastSubmissionAt s a + cooldownSeconds s)
   \<and> (makeAccusation fhe a t b w r su requestId s = Inl RateLimited \<longleftrightarrow>
      \<not> paused s \<and> \<not> overflows (lastSubmissionAt s a) (cooldownSeconds s)
      \<and> t < lastSubmissionAt s a + cooldownSeconds s)
   \<and> (requestBatchSolution fhe a t b requestId s = Inl RateLimited \<longleftrightarrow>
      \<not> paused s \<and> \<not> overflows (lastRequestAt s a) (cooldownSeconds s)
      \<and> t < lastRequestAt s a + cooldownSeconds s)
   \<and> (submitEncryptedGuess fhe a t b w r su s = Inr (sS, eS) \<longrightarrow>
      lastSubmissionAt sS = (lastSubmissionAt s)(a := t) \<and> lastRequestAt sS = lastRequestAt s)
   \<and> (makeAccusation fhe a t b w r su requestId s = Inr (sA, eA) \<longrightarrow>
      lastSubmissionAt sA = (lastSubmissionAt s)(a := t) \<and> lastRequestAt sA = lastRequestAt s)
   \<and> (requestBatchSolution fhe a t b requestId s = Inr (sR, eR) \<longrightarrow>
      lastRequestAt sR = (lastRequestAt s)(a := t) \<and> lastSubmissionAt sR = lastSubmissionAt s)"
proof -
  have 1: "submitEncryptedGuess fhe a t b w r su s = Inl RateLimited \<longleftrightarrow>
      \<not> paused s \<and> \<not> overflows (lastSubmissionAt s a) (cooldownSeconds s)
      \<and> t < lastSubmissionAt s a + cooldownSeconds s"
    unfolding submitEncryptedGuess_def gates_RateLimited by (auto simp: Let_def)
  have 2: "makeAccusation fhe a t b w r su requestId s = Inl RateLimited \<longleftrightarrow>
      \<not> paused s \<and> \<not> overflows (lastSubmissionAt s a) (cooldownSeconds s)
      \<and> t < lastSubmissionAt s a + cooldownSeconds s"
    unfolding makeAccusation_def gates_RateLimited by (auto simp: Let_def)
  have 3: "requestBatchSolution fhe a t b requestId s = Inl RateLimited \<longleftrightarrow>
      \<not> paused s \<and> \<not> overflows (lastRequestAt s a) (cooldownSeconds s)
      \<and> t < lastRequestAt s a + cooldownSeconds s"
    unfolding requestBatchSolution_def gates_RateLimited by (auto simp: Let_def)
  have 4: "submitEncryptedGuess fhe a t b w r su s = Inr (sS, eS) \<longrightarrow>
      lastSubmissionAt sS = (lastSubmissionAt s)(a := t) \<and> lastRequestAt sS = lastRequestAt s"
    by (auto simp: submitEncryptedGuess_def guard_Inr_iff Let_def split: if_splits)
  have 5: "makeAccusation fhe a t b w r su requestId s = Inr (sA, eA) \<longrightarrow>
      lastSubmissionAt sA = (lastSubmissionAt s)(a := t) \<and> lastRequestAt sA = lastRequestAt s"
    by (auto simp: makeAccusation_def guard_Inr_iff Let_def split: if_splits)
  have 6: "requestBatchSolution fhe a t b requestId s = Inr (sR, eR) \<longrightarrow>
      lastRequestAt sR = (lastRequestAt s)(a := t) \<and> lastSubmissionAt sR = lastSubmissionAt s"
    by (auto simp: requestBatchSolution_def guard_Inr_iff Let_def split: if_splits)
  from 1 2 3 4 5 6 show ?thesis by blast
qed

theorem cooldown_gate_witness:
  "\<not> paused contributedState
   \<and> \<not> overflows (lastSubmissionAt contributedState 2) (cooldownSeconds contributedState)
   \<and> 110 < lastSubmissionAt contributedState 2 + cooldownSeconds contributedState
   \<and> submitEncryptedGuess plainFHE 2 110 1 6 7 8 contributedState = Inl RateLimited
   \<and> makeAccusation plainFHE 2 110 1 6 7 8 7 contributedState = Inl RateLimited
   \<and> requestBatchSolution plainFHE 2 110 1 7 contributedState \<noteq> Inl RateLimited
   \<and> requestBatchSolution plainFHE 3 100 1 7 contributedState
       = Inr (requestedState, DecryptionRequested 7 1 2957220)
   \<and> lastRequestAt requestedState = (lastRequestAt contributedState)(3 := 100)
   \<and> lastSubmissionAt requestedState = lastSubmissionAt contributedState"
proof -
  have h1: "\<not> paused contributedState
      \<and> \<not> overflows (lastSubmissionAt contributedState 2) (cooldownSeconds contributedState)
      \<and> 110 < lastSubmissionAt contributedState 2 + cooldownSeconds contributedState"
    by (simp add: scenario_defs eval_defs)
  have h2: "\<not> 110 < lastRequestAt contributedState 2 + cooldownSeconds contributedState"
    by (simp add: scenario_defs eval_defs)
  have h3: "requestBatchSolution plainFHE 3 100 1 7 contributedState
       = Inr (requestedState, DecryptionRequested 7 1 2957220)"
    by (simp add: scenario_defs eval_defs)
  from cooldown_gate [where fhe = plainFHE and a = 2 and t = 110 and b = 1 and w = 6
      and r = 7 and su = 8 and requestId = 7 and s = contributedState] h1 h2
  have limited: "submitEncryptedGuess plainFHE 2 110 1 6 7 8 contributedState = Inl RateLimited
      \<and> makeAccusation plainFHE 2 110 1 6 7 8 7 contributedState = Inl RateLimited
      \<and> requestBatchSolution plainFHE 2 110 1 7 contributedState \<noteq> Inl RateLimited"
    by blast
  from cooldown_gate [where fhe = plainFHE and a = 3 and t = 100 and b = 1
      and requestId = 7 and s = contributedState and sR = requestedState
      and eR = "DecryptionRequested 7 1 2957220"] h3
  have ledger: "lastRequestAt requestedState = (lastRequestAt contributedState)(3 := 100)
      \<and> lastSubmissionAt requestedState = lastSubmissionAt contributedState"
    by blast
  from h1 h3 limited ledger show ?thesis by blast
qed

subsection \<open>Contribution and accusation\<close>

text \<open>
  Claim C9 has the second of the two calls fail with \<open>InvalidState\<close>. Address 2 contributed
  to batch 1 at time 100; its accusation against batch 1 in the same block fails with
  \<open>RateLimited\<close>, because both calls share the submission cooldown, which is checked
  first.
\<close>

theorem accusation_right_after_contribution:
  "submitEncryptedGuess plainFHE 2 100 1 6 7 8 openedState
     = Inr (contributedState, Submission 2 1 6 7 8)
   \<and> hasSubmitted contributedState 1 2
   \<and> makeAccusation plainFHE 2 100 1 6 7 8 9 contributedState = Inl RateLimited"
  by (simp add: scenario_defs eval_defs)

text \<open>
  Claim C9, as the contract has it: for every batch and address, a contribution and an
  accusation both succeed only on an open batch for which the address is not in the
  shared \<open>hasSubmitted\<close> set; whichever succeeds first puts the address into the set, where
  it stays along every later run; from then on both calls of that address for that batch
  fail. The failure is \<open>InvalidState\<close> when the call gets as far as that check: the
  contract not paused, the caller's cooldown elapsed, the batch still open and, for a
  contribution, not full. Otherwise it is the error of the check that fails first.
\<close>

theorem contribution_and_accusation_exclusive:
  assumes first:
        "submitEncryptedGuess fhe a t b w r su s = Inr (s1, ev)
         \<or> makeAccusation fhe a t b w r su requestId s = Inr (s1, ev)"
      and later: "s2 = run fhe txs s1"
  shows "isOpen (batches s b) \<and> \<not> hasSubmitted s b a
       \<and> hasSubmitted s2 b a
       \<and> isl (submitEncryptedGuess fhe a t' b w' r' su' s2)
       \<and> isl (makeAccusation fhe a t' b w' r' su' requestId' s2)
       \<and> (\<not> paused s2 \<and> \<not> overflows (lastSubmissionAt s2 a) (cooldownSeconds s2)
            \<and> lastSubmissionAt s2 a + cooldownSeconds s2 \<le> t' \<and> isOpen (batches s2 b)
          \<longrightarrow> makeAccusation fhe a t' b w' r' su' requestId' s2 = Inl InvalidState
            \<and> (submissionCount (batches s2 b) < MAX_BATCH_SIZE
               \<longrightarrow> submitEncryptedGuess fhe a t' b w' r' su' s2 = Inl InvalidState))"
proof -
  from first_success_marks [OF first]
  have pre: "isOpen (batches s b) \<and> \<not> hasSubmitted s b a" and m: "hasSubmitted s1 b a"
    by simp_all
  from run_hasSubmitted_mono [OF m] later have m2: "hasSubmitted s2 b a" by simp
  show ?thesis
    using pre m2 submitted_blocks_both [OF m2] submitted_InvalidState [OF m2]
    by (simp add: not_le)
qed

theorem contribution_and_accusation_exclusive_witness:
  "submitEncryptedGuess plainFHE 2 100 1 6 7 8 openedState
     = Inr (contributedState, Submission 2 1 6 7 8)
   \<and> requestedState = run plainFHE [(3, 100, RequestBatchSolution 1 7)] contributedState
   \<and> isOpen (batches openedState 1) \<and> \<not> hasSubmitted openedState 1 2
   \<and> hasSubmitted requestedState 1 2
   \<and> isl (submitEncryptedGuess plainFHE 2 200 1 1 2 3 requestedState)
   \<and> isl (makeAccusation plainFHE 2 200 1 1 2 3 9 requestedState)
   \<and> makeAccusation plainFHE 2 200 1 1 2 3 9 requestedState = Inl InvalidState
   \<and> submitEncryptedGuess plainFHE 2 200 1 1 2 3 requestedState = Inl InvalidState"
proof -
  have h1: "submitEncryptedGuess plainFHE 2 100 1 6 7 8 openedState
      = Inr (contributedState, Submission 2 1 6 7 8)
      \<or> makeAccusation plainFHE 2 100 1 6 7 8 9 openedState
      = Inr (contributedState, Submission 2 1 6 7 8)"
    by (simp add: scenario_defs eval_defs)
  have h1': "submitEncryptedGuess plainFHE 2 100 1 6 7 8 openedState
      = Inr (contributedState, Submission 2 1 6 7 8)"
    by (simp add: scenario_defs eval_defs)
  have h2: "requestedState = run plainFHE [(3, 100, RequestBatchSolution 1 7)] contributedState"
    by (rule requestedState_def)
  have h3: "\<not> paused requestedState
      \<and> \<not> overflows (lastSubmissionAt requestedState 2) (cooldownSeconds requestedState)
      \<and> lastSubmissionAt requestedState 2 + cooldownSeconds requestedState \<le> 200
      \<and> isOpen (batches requestedState 1)"
    by (simp add: scenario_defs eval_defs)
  have h4: "submissionCount (batches requestedState 1) < MAX_BATCH_SIZE"
    by (simp add: scenario_defs eval_defs)
  from contribution_and_accusation_exclusive [OF h1 h2, where t' = 200 and w' = 1
      and r' = 2 and su' = 3 and requestId' = 9] h1' h2 h3 h4
  show ?thesis by blast
qed

subsection \<open>The provider role\<close>

text \<open>
  Claim C10: the provider role is inert. Take two states that differ only in the
  \<open>providers\<close> mapping, \<open>s\<close> and \<open>s\<close> with \<open>providers\<close> replaced by any \<open>p\<close>. Every call of
  the contract, by any sender at any time, fails on both with the same error, or succeeds
  on both with the same event and with states that again differ only in \<open>providers\<close>. No
  call fails with \<open>NotProvider\<close> (the modifier \<open>onlyProvider\<close> is applied nowhere). And
  \<open>addProvider\<close> and \<open>removeProvider\<close>, where they succeed, change the \<open>providers\<close> entry of
  their argument and nothing else.
\<close>

theorem provider_role_inert:
  "(case exec fhe a t c s of
      Inl e \<Rightarrow> exec fhe a t c (s\<lparr>providers := p\<rparr>) = Inl e
    | Inr (s', ev) \<Rightarrow>
        (\<exists>q. exec fhe a t c (s\<lparr>providers := p\<rparr>) = Inr (s'\<lparr>providers := q\<rparr>, ev)))
   \<and> exec fhe a t c s \<noteq> Inl NotProvider
   \<and> (addProvider a x s = Inr (s1, e1) \<longrightarrow>
        s1 = s\<lparr>providers := (providers s)(x := True)\<rparr>)
   \<and> (removeProvider a x s = Inr (s2, e2) \<longrightarrow>
        s2 = s\<lparr>providers := (providers s)(x := False)\<rparr>)"
proof -
  have "addProvider a x s = Inr (s1, e1) \<longrightarrow>
        s1 = s\<lparr>providers := (providers s)(x := True)\<rparr>"
    by (auto simp: addProvider_def guard_Inr_iff)
  moreover have "removeProvider a x s = Inr (s2, e2) \<longrightarrow>
        s2 = s\<lparr>providers := (providers s)(x := False)\<rparr>"
    by (auto simp: removeProvider_def guard_Inr_iff)
  ultimately show ?thesis
    using exec_providers_irrelevant [where fhe = fhe and a = a and t = t and c = c
        and s = s and p = p]
      exec_not_NotProvider [where fhe = fhe and a = a and t = t and c = c and s = s]
    by blast
qed

theorem provider_role_inert_witness:
  "exec plainFHE 4 100 (SubmitEncryptedGuess 1 9 10 11) requestedState
     = Inr (run plainFHE [(4, 100, SubmitEncryptedGuess 1 9 10 11)] requestedState,
            Submission 4 1 9 10 11)
   \<and> (\<exists>q. exec plainFHE 4 100 (SubmitEncryptedGuess 1 9 10 11)
            (requestedState\<lparr>providers := (\<lambda>x. x = 4)\<rparr>)
          = Inr ((run plainFHE [(4, 100, SubmitEncryptedGuess 1 9 10 11)] requestedState)
                   \<lparr>providers := q\<rparr>, Submission 4 1 9 10 11))
   \<and> exec plainFHE 4 100 (SubmitEncryptedGuess 1 9 10 11) requestedState \<noteq> Inl NotProvider
   \<and> addProvider 1 5 requestedState
       = Inr (requestedState\<lparr>providers := (providers requestedState)(5 := True)\<rparr>,
              ProviderAdded 5)
   \<and> removeProvider 1 5 requestedState
       = Inr (requestedState\<lparr>providers := (providers requestedState)(5 := False)\<rparr>,
              ProviderRemoved 5)"
proof -
  let ?s' = "run plainFHE [(4, 100, SubmitEncryptedGuess 1 9 10 11)] requestedState"
  have h1: "exec plainFHE 4 100 (SubmitEncryptedGuess 1 9 10 11) requestedState
      = Inr (?s', Submission 4 1 9 10 11)"
    by (simp add: scenario_defs eval_defs)
  have h2: "addProvider 1 5 requestedState
       = Inr (requestedState\<lparr>providers := (providers requestedState)(5 := True)\<rparr>,
              ProviderAdded 5)"
    by (simp add: scenario_defs eval_defs)
  have h3: "removeProvider 1 5 requestedState
       = Inr (requestedState\<lparr>providers := (providers requestedState)(5 := False)\<rparr>,
              ProviderRemoved 5)"
    by (simp add: scenario_defs eval_defs)
  note inert = provider_role_inert [where fhe = plainFHE and a = 4 and t = 100
      and c = "SubmitEncryptedGuess 1 9 10 11" and s = requestedState
      and p = "\<lambda>x. x = 4" and x = 5]
  from inert have "case exec plainFHE 4 100 (SubmitEncryptedGuess 1 9 10 11) requestedState of
      Inl e \<Rightarrow> exec plainFHE 4 100 (SubmitEncryptedGuess 1 9 10 11)
                 (requestedState\<lparr>providers := (\<lambda>x. x = 4)\<rparr>) = Inl e
    | Inr (s', ev) \<Rightarrow>
        (\<exists>q. exec plainFHE 4 100 (SubmitEncryptedGuess 1 9 10 11)
                (requestedState\<lparr>providers := (\<lambda>x. x = 4)\<rparr>) = Inr (s'\<lparr>providers := q\<rparr>, ev))"
    by blast
  then have same: "\<exists>q. exec plainFHE 4 100 (SubmitEncryptedGuess 1 9 10 11)
            (requestedState\<lparr>providers := (\<lambda>x. x = 4)\<rparr>)
          = Inr (?s'\<lparr>providers := q\<rparr>, Submission 4 1 9 10 11)"
    unfolding h1 by simp
  from inert have never: "exec plainFHE 4 100 (SubmitEncryptedGuess 1 9 10 11) requestedState
      \<noteq> Inl NotProvider"
    by blast
  from h1 same never h2 h3 show ?thesis by blast
qed

end
